theory Spec2Isabelle
  imports Main
begin

section \<open>JPEG to PDF converter: the data model\<close>

text \<open>
  The program under verification is \<^verbatim>\<open>jpeg_to_pdf_converter.py\<close>. Its decision logic
  lives in \<^verbatim>\<open>apply_exif_orientation\<close>, \<^verbatim>\<open>convert_jpegs_to_pdf\<close> and \<^verbatim>\<open>main\<close>;
  everything else is a call into Pillow, tkinter or the operating system. Those calls are
  modelled by what they return or raise.
\<close>

subsection \<open>Exceptions\<close>

text \<open>
  A Python exception is its class and the text \<^verbatim>\<open>str(e)\<close>. Every class listed is a
  subclass of \<^verbatim>\<open>Exception\<close>, so the handler \<^verbatim>\<open>except Exception\<close> catches all of
  them. None is a subclass of another class that the handler of
  \<^verbatim>\<open>apply_exif_orientation\<close> names.
\<close>

datatype exc_class =
    AttributeError | KeyError | TypeError
  | SyntaxError | ValueError | OSError | FileNotFoundError | UnidentifiedImageError

datatype exc = Exc exc_class string

fun exc_cls :: "exc \<Rightarrow> exc_class" where
  "exc_cls (Exc c m) = c"

fun str :: "exc \<Rightarrow> string" where
  "str (Exc c m) = m"

subsection \<open>Images\<close>

text \<open>
  A pixel is its tuple of band values; a raster is the list of its rows, top row first.
  An opened image carries its size and mode (known from the file header), the outcome of
  \<^verbatim>\<open>image._getexif()\<close> and the outcome of decoding the pixel data, which Pillow does lazily
  at the first operation that needs pixels. The EXIF dictionary is an association list
  from tag numbers to integer values.
\<close>

type_synonym pixel = "nat list"

type_synonym raster = "pixel list list"

record image =
  img_size :: "nat \<times> nat"
  mode :: string
  getexif :: "exc + (int \<times> int) list option"
  pixels :: "exc + raster"

definition raster_width :: "'a list list \<Rightarrow> nat" where
  "raster_width rows = (case rows of [] \<Rightarrow> 0 | r # _ \<Rightarrow> length r)"

definition raster_size :: "'a list list \<Rightarrow> nat \<times> nat" where
  "raster_size rows = (raster_width rows, length rows)"

text \<open>
  A raster of the given width and height: that many rows, each of that length, and
  neither dimension zero.
\<close>

definition rect :: "nat \<Rightarrow> nat \<Rightarrow> 'a list list \<Rightarrow> bool" where
  "rect wd ht rows =
     (0 < wd \<and> 0 < ht \<and> length rows = ht \<and> list_all (\<lambda>r. length r = wd) rows)"

text \<open>
  A decoded image: its pixel data load and form a raster of the size the header
  announces.
\<close>

definition decoded :: "image \<Rightarrow> bool" where
  "decoded img =
     (case pixels img of
        Inl e \<Rightarrow> False
      | Inr rows \<Rightarrow> rect (fst (img_size img)) (snd (img_size img)) rows)"

subsection \<open>Pillow's rotation\<close>

text \<open>
  Modelled from the spec: \<^verbatim>\<open>Image.rotate(angle, expand=True)\<close> belongs to Pillow and is
  not part of the repository. The spec's glossary calls it a canvas-expanding rotation:
  the output bounds grow to contain the fully rotated content. Angles are degrees
  counter-clockwise. For the three right angles the program passes, the rotation is a
  rearrangement of the pixel grid; the pixel data is decoded first, so a decoding failure
  is raised here. Any other angle is resampled by Pillow, which the model does not
  describe: the raster is left as it is.
\<close>

definition rotate_90 :: "'a list list \<Rightarrow> 'a list list" where
  "rotate_90 rows = rev (transpose rows)"

definition rotate_180 :: "'a list list \<Rightarrow> 'a list list" where
  "rotate_180 rows = rev (map rev rows)"

definition rotate_270 :: "'a list list \<Rightarrow> 'a list list" where
  "rotate_270 rows = map rev (transpose rows)"

definition rotate_raster :: "int \<Rightarrow> 'a list list \<Rightarrow> 'a list list" where
  "rotate_raster angle rows =
     (if angle mod 360 = 90 then rotate_90 rows
      else if angle mod 360 = 180 then rotate_180 rows
      else if angle mod 360 = 270 then rotate_270 rows
      else rows)"

definition rotate_img :: "int \<Rightarrow> image \<Rightarrow> exc + image" where
  "rotate_img angle img =
     (case pixels img of
        Inl e \<Rightarrow> Inl e
      | Inr rows \<Rightarrow>
          Inr (img\<lparr>img_size := raster_size (rotate_raster angle rows),
                     pixels := Inr (rotate_raster angle rows)\<rparr>))"

subsection \<open>Console, dialogs and files\<close>

text \<open>
  Each \<^verbatim>\<open>print\<close> of the program is one constructor, carrying the values the line
  interpolates (a path stands for its base name, a byte count for the size in MB).
\<close>

datatype line =
    AppliedRotation int int
  | NoRotationNeeded int
  | UnsupportedOrientation int
  | NoExifData
  | NoFilesSelected
  | NoOutputPath
  | ProcessingImages nat
  | Processing nat nat string
  | OpenedSuccessfully nat nat string
  | FailedToOpen string
  | ConvertedToRGB string
  | AlreadyRGB
  | SuccessfullyProcessed
  | NoImagesProcessed
  | CreatingPdf nat
  | PdfCreated
  | OutputLocation string
  | FileSize nat
  | ErrorLine string
  | Banner
  | StepSelectFiles
  | SelectionCancelled
  | Goodbye
  | SelectedCount nat
  | SelectedFile nat string nat
  | StepChooseOutput
  | OutputCancelled
  | WillBeSavedAs string
  | StepConvert
  | ConversionCompleted
  | ConversionFailed
  | ThankYou

text \<open>
  \<^verbatim>\<open>messagebox.showerror(title, message)\<close> and the success dialog of \<^verbatim>\<open>main\<close>, whose
  message interpolates a page count, the output path and the size of the output file.
\<close>

datatype dialog =
    ShowError string string
  | ShowInfo nat string nat

text \<open>
  A file is its size in bytes and what it holds: bytes that \<^verbatim>\<open>Image.open\<close> accepts,
  bytes on which \<^verbatim>\<open>Image.open\<close> raises, or a document written by this program (its pages
  in order and its resolution).
\<close>

datatype content =
    Decodes image
  | OpenFails exc
  | Document "image list" nat

record fs_entry =
  nbytes :: nat
  content :: content

record world =
  fs :: "string \<rightharpoonup> fs_entry"
  console :: "line list"
  dialogs :: "dialog list"

definition print :: "line \<Rightarrow> world \<Rightarrow> world" where
  "print l w = w\<lparr>console := console w @ [l]\<rparr>"

definition showerror :: "string \<Rightarrow> string \<Rightarrow> world \<Rightarrow> world" where
  "showerror title message w = w\<lparr>dialogs := dialogs w @ [ShowError title message]\<rparr>"

definition showinfo :: "nat \<Rightarrow> string \<Rightarrow> nat \<Rightarrow> world \<Rightarrow> world" where
  "showinfo pages location sz w = w\<lparr>dialogs := dialogs w @ [ShowInfo pages location sz]\<rparr>"

section \<open>The orientation normalizer\<close>

text \<open>
  The body of the \<^verbatim>\<open>try\<close> block of \<^verbatim>\<open>apply_exif_orientation\<close>. \<^verbatim>\<open>exif.get(274)\<close> is
  \<^verbatim>\<open>None\<close> when the tag is missing, and \<^verbatim>\<open>if orientation:\<close> is false for \<^verbatim>\<open>None\<close> and
  for 0.
\<close>

definition exif_orientation_body :: "image \<Rightarrow> world \<Rightarrow> (exc + image) \<times> world" where
  "exif_orientation_body img w =
     (case getexif img of
        Inl e \<Rightarrow> (Inl e, w)
      | Inr None \<Rightarrow> (Inr img, w)
      | Inr (Some exif) \<Rightarrow>
          (case map_of exif 274 of
             None \<Rightarrow> (Inr img, w)
           | Some orientation \<Rightarrow>
               if orientation = 0 then (Inr img, w)
               else if orientation = 3 then
                 (case rotate_img 180 img of
                    Inl e \<Rightarrow> (Inl e, w)
                  | Inr r \<Rightarrow> (Inr r, print (AppliedRotation 180 orientation) w))
               else if orientation = 6 then
                 (case rotate_img 270 img of
                    Inl e \<Rightarrow> (Inl e, w)
                  | Inr r \<Rightarrow> (Inr r, print (AppliedRotation 270 orientation) w))
               else if orientation = 8 then
                 (case rotate_img 90 img of
                    Inl e \<Rightarrow> (Inl e, w)
                  | Inr r \<Rightarrow> (Inr r, print (AppliedRotation 90 orientation) w))
               else if orientation = 1 then
                 (Inr img, print (NoRotationNeeded orientation) w)
               else (Inr img, print (UnsupportedOrientation orientation) w)))"

text \<open>The classes named by \<^verbatim>\<open>except (AttributeError, KeyError, TypeError)\<close>.\<close>

definition exif_handled :: "exc \<Rightarrow> bool" where
  "exif_handled e = (exc_cls e = AttributeError \<or> exc_cls e = KeyError \<or> exc_cls e = TypeError)"

text \<open>
  \<^verbatim>\<open>apply_exif_orientation\<close>: when the handler catches, the variable \<^verbatim>\<open>image\<close> still holds
  the argument, which is returned; any other exception leaves the function.
\<close>

definition apply_exif_orientation :: "image \<Rightarrow> string \<Rightarrow> world \<Rightarrow> (exc + image) \<times> world" where
  "apply_exif_orientation img file_path w =
     (case exif_orientation_body img w of
        (Inl e, w') \<Rightarrow>
          if exif_handled e then (Inr img, print NoExifData w') else (Inl e, w')
      | (Inr r, w') \<Rightarrow> (Inr r, w'))"

section \<open>The document assembler\<close>

subsection \<open>The calls into Pillow and the operating system\<close>

text \<open>
  Modelled from the spec: the image codec (Pillow) and the operating system are external
  collaborators, not part of the repository. The spec gives their capabilities: open a
  raster image, report its size and colour mode, convert it to RGB, encode several pages
  as one document at a path. What the program cannot decide is a parameter: how one pixel
  of a given mode converts to RGB, whether writing to a path fails (unwritable
  destination, disk full), and how many bytes the encoded document takes.
\<close>

record codec =
  to_rgb :: "string \<Rightarrow> pixel \<Rightarrow> pixel"
  write_error :: "string \<Rightarrow> exc option"
  encoded_size :: "image list \<Rightarrow> nat"

text \<open>\<^verbatim>\<open>Image.open(file_path)\<close>: reads the header only; the pixel data is decoded later.\<close>

definition image_open :: "world \<Rightarrow> string \<Rightarrow> exc + image" where
  "image_open w file_path =
     (case fs w file_path of
        None \<Rightarrow> Inl (Exc FileNotFoundError file_path)
      | Some f \<Rightarrow>
          (case content f of
             Decodes img \<Rightarrow> Inr img
           | OpenFails e \<Rightarrow> Inl e
           | Document pages resolution \<Rightarrow>
               Inl (Exc UnidentifiedImageError ''cannot identify image file'')))"

text \<open>\<^verbatim>\<open>os.path.getsize(path)\<close>.\<close>

definition getsize :: "world \<Rightarrow> string \<Rightarrow> exc + nat" where
  "getsize w path =
     (case fs w path of
        None \<Rightarrow> Inl (Exc FileNotFoundError path)
      | Some f \<Rightarrow> Inr (nbytes f))"

text \<open>
  \<^verbatim>\<open>img.convert('RGB')\<close>: decodes the pixel data, converts every pixel, and returns an
  image of the requested mode.
\<close>

definition convert :: "codec \<Rightarrow> string \<Rightarrow> image \<Rightarrow> exc + image" where
  "convert c new_mode img =
     (case pixels img of
        Inl e \<Rightarrow> Inl e
      | Inr rows \<Rightarrow>
          Inr (img\<lparr>mode := new_mode, pixels := Inr (map (map (to_rgb c (mode img))) rows)\<rparr>))"

text \<open>
  \<^verbatim>\<open>first.save(output_path, save_all=True, append_images=rest, format='PDF',
  resolution=100.0)\<close>: the destination is opened for writing, then every page is decoded and
  encoded in order. A failure leaves the file system as it was.
\<close>

fun first_decode_error :: "image list \<Rightarrow> exc option" where
  "first_decode_error [] = None"
| "first_decode_error (p # ps) =
     (case pixels p of Inl e \<Rightarrow> Some e | Inr rows \<Rightarrow> first_decode_error ps)"

definition save :: "codec \<Rightarrow> image \<Rightarrow> string \<Rightarrow> image list \<Rightarrow> nat \<Rightarrow> world \<Rightarrow> (exc + unit) \<times> world" where
  "save c first output_path append_images resolution w =
     (case write_error c output_path of
        Some e \<Rightarrow> (Inl e, w)
      | None \<Rightarrow>
          (case first_decode_error (first # append_images) of
             Some e \<Rightarrow> (Inl e, w)
           | None \<Rightarrow>
               (Inr (),
                w\<lparr>fs := (fs w)(output_path \<mapsto>
                     \<lparr>nbytes = encoded_size c (first # append_images),
                      content = Document (first # append_images) resolution\<rparr>)\<rparr>)))"

subsection \<open>The loop over the input files\<close>

text \<open>
  One pass of the \<^verbatim>\<open>for\<close> loop of \<^verbatim>\<open>convert_jpegs_to_pdf\<close> after the image has been
  opened: orientation correction, then conversion to RGB when the mode differs. The
  result is the image to append, or the exception that leaves the loop.
\<close>

definition process_opened :: "codec \<Rightarrow> image \<Rightarrow> string \<Rightarrow> world \<Rightarrow> (exc + image) \<times> world" where
  "process_opened c img file_path w =
     (case apply_exif_orientation img file_path w of
        (Inl e, w1) \<Rightarrow> (Inl e, w1)
      | (Inr img1, w1) \<Rightarrow>
          if mode img1 \<noteq> ''RGB'' then
            (case convert c ''RGB'' img1 of
               Inl e \<Rightarrow> (Inl e, w1)
             | Inr img2 \<Rightarrow> (Inr img2, print (ConvertedToRGB (mode img1)) w1))
          else (Inr img1, print AlreadyRGB w1))"

text \<open>
  The loop \<^verbatim>\<open>for i, file_path in enumerate(jpeg_files, 1)\<close>. \<open>n\<close> is
  \<^verbatim>\<open>len(jpeg_files)\<close>, \<open>i\<close> the running index and \<open>processed_images\<close> the list built so
  far. Only the failure of \<^verbatim>\<open>Image.open\<close> is handled inside the loop (\<^verbatim>\<open>continue\<close>).
\<close>

fun process_files :: "codec \<Rightarrow> nat \<Rightarrow> nat \<Rightarrow> string list \<Rightarrow> image list \<Rightarrow> world \<Rightarrow> (exc + image list) \<times> world" where
  "process_files c n i [] processed_images w = (Inr processed_images, w)"
| "process_files c n i (file_path # rest) processed_images w =
     (let w1 = print (Processing i n file_path) w in
      case image_open w1 file_path of
        Inl e \<Rightarrow> process_files c n (i + 1) rest processed_images (print (FailedToOpen (str e)) w1)
      | Inr img \<Rightarrow>
          (case process_opened c img file_path
                  (print (OpenedSuccessfully (fst (img_size img)) (snd (img_size img)) (mode img)) w1) of
             (Inl e, w2) \<Rightarrow> (Inl e, w2)
           | (Inr page, w2) \<Rightarrow>
               process_files c n (i + 1) rest (processed_images @ [page])
                 (print SuccessfullyProcessed w2)))"

subsection \<open>\<^verbatim>\<open>convert_jpegs_to_pdf\<close>\<close>

text \<open>The body of the outer \<^verbatim>\<open>try\<close> block: the value returned, or the exception raised.\<close>

definition convert_body :: "codec \<Rightarrow> string list \<Rightarrow> string \<Rightarrow> world \<Rightarrow> (exc + bool) \<times> world" where
  "convert_body c jpeg_files output_path w =
     (case process_files c (length jpeg_files) 1 jpeg_files []
             (print (ProcessingImages (length jpeg_files)) w) of
        (Inl e, w1) \<Rightarrow> (Inl e, w1)
      | (Inr processed_images, w1) \<Rightarrow>
          (case processed_images of
             [] \<Rightarrow> (Inr False, print NoImagesProcessed w1)
           | first # others \<Rightarrow>
               (case save c first output_path
                       (if length processed_images > 1 then others else []) 100
                       (print (CreatingPdf (length processed_images)) w1) of
                  (Inl e, w2) \<Rightarrow> (Inl e, w2)
                | (Inr u, w2) \<Rightarrow>
                    (let w3 = print (OutputLocation output_path) (print PdfCreated w2) in
                     case getsize w3 output_path of
                       Inl e \<Rightarrow> (Inl e, w3)
                     | Inr sz \<Rightarrow> (Inr True, print (FileSize sz) w3)))))"

definition convert_jpegs_to_pdf :: "codec \<Rightarrow> string list \<Rightarrow> string \<Rightarrow> world \<Rightarrow> bool \<times> world" where
  "convert_jpegs_to_pdf c jpeg_files output_path w =
     (if jpeg_files = [] then (False, print NoFilesSelected w)
      else if output_path = [] then (False, print NoOutputPath w)
      else
        (case convert_body c jpeg_files output_path w of
           (Inr b, w1) \<Rightarrow> (b, w1)
         | (Inl e, w1) \<Rightarrow>
             (False,
              showerror ''Conversion Error'' (''Failed to create PDF: '' @ str e)
                (print (ErrorLine (''Failed to create PDF: '' @ str e)) w1))))"

subsection \<open>\<^verbatim>\<open>main\<close>\<close>

text \<open>
  The two dialogs of \<^verbatim>\<open>select_jpeg_files\<close> and \<^verbatim>\<open>select_output_path\<close> return what the
  user chose: the selected paths in selection order (none when cancelled) and the output
  path (empty when cancelled).
\<close>

record user =
  selected_files :: "string list"
  selected_output :: string

text \<open>The listing loop of \<^verbatim>\<open>main\<close>; \<^verbatim>\<open>os.path.getsize\<close> is not guarded there.\<close>

fun list_selected :: "nat \<Rightarrow> string list \<Rightarrow> world \<Rightarrow> (exc + unit) \<times> world" where
  "list_selected i [] w = (Inr (), w)"
| "list_selected i (file_path # rest) w =
     (case getsize w file_path of
        Inl e \<Rightarrow> (Inl e, w)
      | Inr file_size \<Rightarrow> list_selected (i + 1) rest (print (SelectedFile i file_path file_size) w))"

text \<open>
  \<^verbatim>\<open>main\<close> returns \<^verbatim>\<open>None\<close>, or an exception leaves it. The page count of the success
  dialog is \<^verbatim>\<open>len(jpeg_files)\<close>.
\<close>

definition main :: "codec \<Rightarrow> user \<Rightarrow> world \<Rightarrow> (exc + unit) \<times> world" where
  "main c u w =
     (let w1 = print StepSelectFiles (print Banner w);
          jpeg_files = selected_files u in
      if jpeg_files = [] then (Inr (), print Goodbye (print SelectionCancelled w1))
      else
        (case list_selected 1 jpeg_files (print (SelectedCount (length jpeg_files)) w1) of
           (Inl e, w2) \<Rightarrow> (Inl e, w2)
         | (Inr u1, w2) \<Rightarrow>
             (let w3 = print StepChooseOutput w2;
                  output_path = selected_output u in
              if output_path = [] then (Inr (), print Goodbye (print OutputCancelled w3))
              else
                (case convert_jpegs_to_pdf c jpeg_files output_path
                        (print StepConvert (print (WillBeSavedAs output_path) w3)) of
                   (True, w4) \<Rightarrow>
                     (case getsize w4 output_path of
                        Inl e \<Rightarrow> (Inl e, w4)
                      | Inr sz \<Rightarrow>
                          (Inr (),
                           print ThankYou (print ConversionCompleted
                             (showinfo (length jpeg_files) output_path sz w4))))
                 | (False, w4) \<Rightarrow> (Inr (), print ThankYou (print ConversionFailed w4))))))"

section \<open>Notions used to state the properties\<close>

text \<open>A world with no files, an empty console and no dialog shown.\<close>

definition silent :: world where
  "silent = \<lparr>fs = Map.empty, console = [], dialogs = []\<rparr>"

text \<open>
  What \<^verbatim>\<open>apply_exif_orientation\<close> returns or raises for an image, and what one pass of
  the loop appends or raises for an opened image; neither depends on the path or on the
  world, which only receives console lines.
\<close>

definition oriented :: "image \<Rightarrow> exc + image" where
  "oriented img = fst (apply_exif_orientation img [] silent)"

definition page_of :: "codec \<Rightarrow> image \<Rightarrow> exc + image" where
  "page_of c img = fst (process_opened c img [] silent)"

text \<open>Whether \<^verbatim>\<open>Image.open\<close> succeeds on a path, and the images opened from a list of paths.\<close>

definition opens :: "world \<Rightarrow> string \<Rightarrow> bool" where
  "opens w file_path = (case image_open w file_path of Inl e \<Rightarrow> False | Inr img \<Rightarrow> True)"

definition opened_images :: "world \<Rightarrow> string list \<Rightarrow> image list" where
  "opened_images w jpeg_files =
     List.map_filter
       (\<lambda>file_path. case image_open w file_path of Inl e \<Rightarrow> None | Inr img \<Rightarrow> Some img)
       jpeg_files"

text \<open>The pages of the document stored at a path, if one is stored there.\<close>

definition document_pages :: "world \<Rightarrow> string \<Rightarrow> image list option" where
  "document_pages w path =
     (case fs w path of
        None \<Rightarrow> None
      | Some f \<Rightarrow>
          (case content f of
             Document pages resolution \<Rightarrow> Some pages
           | Decodes img \<Rightarrow> None
           | OpenFails e \<Rightarrow> None))"

subsection \<open>Sample inputs\<close>

text \<open>
  A 3 by 2 greyscale photo with a given EXIF orientation, the same photo in RGB, a photo
  whose EXIF block is not a valid TIFF header, and a photo whose pixel data is truncated.
\<close>

definition grey_rows :: raster where
  "grey_rows = [[[1], [2], [3]], [[4], [5], [6]]]"

definition rgb_rows :: raster where
  "rgb_rows = [[[1, 1, 1], [2, 2, 2], [3, 3, 3]], [[4, 4, 4], [5, 5, 5], [6, 6, 6]]]"

definition grey_photo :: "int \<Rightarrow> image" where
  "grey_photo code =
     \<lparr>img_size = (3, 2), mode = ''L'', getexif = Inr (Some [(271, 7), (274, code)]),
      pixels = Inr grey_rows\<rparr>"

definition rgb_photo :: image where
  "rgb_photo =
     \<lparr>img_size = (3, 2), mode = ''RGB'', getexif = Inr None, pixels = Inr rgb_rows\<rparr>"

definition bad_exif_photo :: image where
  "bad_exif_photo =
     \<lparr>img_size = (3, 2), mode = ''RGB'',
      getexif = Inl (Exc SyntaxError ''not a TIFF file (header not valid)''),
      pixels = Inr rgb_rows\<rparr>"

definition truncated_photo :: image where
  "truncated_photo =
     \<lparr>img_size = (3, 2), mode = ''L'', getexif = Inr None,
      pixels = Inl (Exc OSError ''image file is truncated'')\<rparr>"

text \<open>
  A codec that turns a grey level into three equal bands and refuses to write below
  \<^verbatim>\<open>/ro/\<close>; a folder with three photos and one file that is not an image.
\<close>

definition sample_codec :: codec where
  "sample_codec =
     \<lparr>to_rgb = (\<lambda>m px. if m = ''L'' then px @ px @ px else px),
      write_error = (\<lambda>path. if take 4 path = ''/ro/'' then Some (Exc OSError ''Permission denied'') else None),
      encoded_size = (\<lambda>pages. 1000 * length pages)\<rparr>"

definition sample_world :: world where
  "sample_world =
     \<lparr>fs = [''a.jpg'' \<mapsto> \<lparr>nbytes = 300, content = Decodes (grey_photo 6)\<rparr>,
            ''b.jpg'' \<mapsto> \<lparr>nbytes = 12, content = OpenFails (Exc UnidentifiedImageError ''cannot identify image file'')\<rparr>,
            ''c.jpg'' \<mapsto> \<lparr>nbytes = 400, content = Decodes rgb_photo\<rparr>,
            ''d.jpg'' \<mapsto> \<lparr>nbytes = 200, content = Decodes truncated_photo\<rparr>,
            ''e.jpg'' \<mapsto> \<lparr>nbytes = 250, content = Decodes bad_exif_photo\<rparr>],
      console = [], dialogs = []\<rparr>"

section \<open>Properties of the rotation\<close>

lemma transpose_rect:
  assumes "rect wd ht rows"
  shows "transpose rows = map (\<lambda>i. map (\<lambda>j. rows ! j ! i) [0..<ht]) [0..<wd]"
proof -
  have a: "rows = [] \<Longrightarrow> wd = 0" using assms by (auto simp: rect_def)
  have b: "\<And>i. i < length rows \<Longrightarrow> length (rows ! i) = wd"
    using assms by (auto simp: rect_def list_all_length)
  show ?thesis using transpose_rectangle [OF a b] assms by (simp add: rect_def)
qed

lemma rect_rotate_180: "rect wd ht rows \<Longrightarrow> rect wd ht (rotate_180 rows)"
  by (auto simp: rect_def rotate_180_def list_all_iff)

lemma rect_rotate_90: "rect wd ht rows \<Longrightarrow> rect ht wd (rotate_90 rows)"
  by (simp add: transpose_rect rotate_90_def) (auto simp: rect_def list_all_iff)

lemma rect_rotate_270: "rect wd ht rows \<Longrightarrow> rect ht wd (rotate_270 rows)"
  by (simp add: transpose_rect rotate_270_def) (auto simp: rect_def list_all_iff)

lemma rect_size: "rect wd ht rows \<Longrightarrow> raster_size rows = (wd, ht)"
  by (cases rows) (auto simp: rect_def raster_size_def raster_width_def)

lemma nth_rotate_180:
  "rect wd ht rows \<Longrightarrow> x < wd \<Longrightarrow> y < ht \<Longrightarrow>
   rotate_180 rows ! (ht - 1 - y) ! (wd - 1 - x) = rows ! y ! x"
  by (auto simp: rect_def rotate_180_def rev_nth list_all_length)

lemma nth_rotate_90:
  "rect wd ht rows \<Longrightarrow> x < wd \<Longrightarrow> y < ht \<Longrightarrow>
   rotate_90 rows ! (wd - 1 - x) ! y = rows ! y ! x"
  by (simp add: transpose_rect rotate_90_def rev_nth)

lemma nth_rotate_270:
  "rect wd ht rows \<Longrightarrow> x < wd \<Longrightarrow> y < ht \<Longrightarrow>
   rotate_270 rows ! x ! (ht - 1 - y) = rows ! y ! x"
  by (simp add: transpose_rect rotate_270_def rev_nth)

lemma rotate_decoded:
  "pixels img = Inr rows \<Longrightarrow>
   rotate_img angle img =
     Inr (img\<lparr>img_size := raster_size (rotate_raster angle rows),
              pixels := Inr (rotate_raster angle rows)\<rparr>)"
  by (simp add: rotate_img_def)

lemma rotate_raster_angles:
  "rotate_raster 90 rows = rotate_90 rows"
  "rotate_raster 180 rows = rotate_180 rows"
  "rotate_raster 270 rows = rotate_270 rows"
  by (simp_all add: rotate_raster_def)

section \<open>Properties of the orientation normalizer\<close>

lemma fs_print [simp]: "fs (print l w) = fs w"
  by (simp add: print_def)

lemma dialogs_print [simp]: "dialogs (print l w) = dialogs w"
  by (simp add: print_def)

lemma body_rotating:
  assumes "getexif img = Inr (Some exif)" and "map_of exif 274 = Some code"
  shows "code = 3 \<Longrightarrow> fst (exif_orientation_body img w) = rotate_img 180 img"
    and "code = 6 \<Longrightarrow> fst (exif_orientation_body img w) = rotate_img 270 img"
    and "code = 8 \<Longrightarrow> fst (exif_orientation_body img w) = rotate_img 90 img"
    and "code \<noteq> 3 \<Longrightarrow> code \<noteq> 6 \<Longrightarrow> code \<noteq> 8 \<Longrightarrow> fst (exif_orientation_body img w) = Inr img"
  using assms by (simp_all add: exif_orientation_body_def split: sum.splits)

lemma body_no_tag:
  "getexif img = Inr None \<Longrightarrow> exif_orientation_body img w = (Inr img, w)"
  "getexif img = Inr (Some exif) \<Longrightarrow> map_of exif 274 = None \<Longrightarrow>
   exif_orientation_body img w = (Inr img, w)"
  "getexif img = Inl e \<Longrightarrow> exif_orientation_body img w = (Inl e, w)"
  by (simp_all add: exif_orientation_body_def)

lemma apply_fst:
  "fst (apply_exif_orientation img file_path w) =
     (case fst (exif_orientation_body img w) of
        Inl e \<Rightarrow> if exif_handled e then Inr img else Inl e
      | Inr r \<Rightarrow> Inr r)"
  by (simp add: apply_exif_orientation_def split: prod.splits sum.splits)

lemma body_fst_world: "fst (exif_orientation_body img w) = fst (exif_orientation_body img w')"
  by (simp add: exif_orientation_body_def split: sum.splits option.splits)

lemma apply_fst_oriented: "fst (apply_exif_orientation img file_path w) = oriented img"
  unfolding oriented_def apply_fst using body_fst_world [of img w silent] by simp

lemma body_fs: "fs (snd (exif_orientation_body img w)) = fs w"
  by (simp add: exif_orientation_body_def split: sum.splits option.splits)

lemma body_dialogs: "dialogs (snd (exif_orientation_body img w)) = dialogs w"
  by (simp add: exif_orientation_body_def split: sum.splits option.splits)

lemma apply_fs: "fs (snd (apply_exif_orientation img file_path w)) = fs w"
  using body_fs [of img w]
  by (cases "exif_orientation_body img w")
     (simp add: apply_exif_orientation_def split: sum.splits)

lemma apply_dialogs: "dialogs (snd (apply_exif_orientation img file_path w)) = dialogs w"
  using body_dialogs [of img w]
  by (cases "exif_orientation_body img w")
     (simp add: apply_exif_orientation_def split: sum.splits)

text \<open>
  The mapping of the normalizer: for an image whose pixel data decode,
  \<^verbatim>\<open>apply_exif_orientation\<close> returns the image rotated by 180 degrees when the EXIF
  orientation is 3, by 270 degrees counter-clockwise when it is 6 and by 90 degrees
  counter-clockwise when it is 8, each time on an expanded canvas (the size is that of the
  rotated raster). For every other value of the tag (1, the mirrored codes 2, 4, 5 and 7,
  and anything else), when the tag is missing, when there is no EXIF block and when
  reading it raises one of the three exceptions the handler names, the image is returned
  as it was.
\<close>

lemma apply_exif_orientation_mapping:
  assumes "pixels img = Inr rows"
  shows "(getexif img = Inr (Some exif) \<and> map_of exif 274 = Some 3 \<longrightarrow>
            fst (apply_exif_orientation img file_path w) = rotate_img 180 img \<and>
            rotate_img 180 img =
              Inr (img\<lparr>img_size := raster_size (rotate_180 rows), pixels := Inr (rotate_180 rows)\<rparr>)) \<and>
         (getexif img = Inr (Some exif) \<and> map_of exif 274 = Some 6 \<longrightarrow>
            fst (apply_exif_orientation img file_path w) = rotate_img 270 img \<and>
            rotate_img 270 img =
              Inr (img\<lparr>img_size := raster_size (rotate_270 rows), pixels := Inr (rotate_270 rows)\<rparr>)) \<and>
         (getexif img = Inr (Some exif) \<and> map_of exif 274 = Some 8 \<longrightarrow>
            fst (apply_exif_orientation img file_path w) = rotate_img 90 img \<and>
            rotate_img 90 img =
              Inr (img\<lparr>img_size := raster_size (rotate_90 rows), pixels := Inr (rotate_90 rows)\<rparr>)) \<and>
         (getexif img = Inr (Some exif) \<and> map_of exif 274 = Some code \<and>
          code \<noteq> 3 \<and> code \<noteq> 6 \<and> code \<noteq> 8 \<longrightarrow>
            fst (apply_exif_orientation img file_path w) = Inr img) \<and>
         (getexif img = Inr (Some exif) \<and> map_of exif 274 = None \<longrightarrow>
            fst (apply_exif_orientation img file_path w) = Inr img) \<and>
         (getexif img = Inr None \<longrightarrow>
            fst (apply_exif_orientation img file_path w) = Inr img) \<and>
         (getexif img = Inl e \<and> exif_handled e \<longrightarrow>
            fst (apply_exif_orientation img file_path w) = Inr img)"
proof -
  note r = rotate_decoded [OF assms] rotate_raster_angles
  have c3: "getexif img = Inr (Some exif) \<Longrightarrow> map_of exif 274 = Some 3 \<Longrightarrow>
      fst (apply_exif_orientation img file_path w) = rotate_img 180 img"
    by (simp add: apply_fst body_rotating r)
  have c6: "getexif img = Inr (Some exif) \<Longrightarrow> map_of exif 274 = Some 6 \<Longrightarrow>
      fst (apply_exif_orientation img file_path w) = rotate_img 270 img"
    by (simp add: apply_fst body_rotating r)
  have c8: "getexif img = Inr (Some exif) \<Longrightarrow> map_of exif 274 = Some 8 \<Longrightarrow>
      fst (apply_exif_orientation img file_path w) = rotate_img 90 img"
    by (simp add: apply_fst body_rotating r)
  have other: "getexif img = Inr (Some exif) \<Longrightarrow> map_of exif 274 = Some code \<Longrightarrow>
      code \<noteq> 3 \<Longrightarrow> code \<noteq> 6 \<Longrightarrow> code \<noteq> 8 \<Longrightarrow>
      fst (apply_exif_orientation img file_path w) = Inr img"
    by (simp add: apply_fst body_rotating)
  have none: "getexif img = Inr (Some exif) \<Longrightarrow> map_of exif 274 = None \<Longrightarrow>
      fst (apply_exif_orientation img file_path w) = Inr img"
    "getexif img = Inr None \<Longrightarrow> fst (apply_exif_orientation img file_path w) = Inr img"
    "getexif img = Inl e \<Longrightarrow> exif_handled e \<Longrightarrow>
      fst (apply_exif_orientation img file_path w) = Inr img"
    by (simp_all add: apply_fst body_no_tag)
  show ?thesis using c3 c6 c8 other none by (simp add: r)
qed


lemma apply_exif_orientation_mapping_examples:
  "fst (apply_exif_orientation (grey_photo 3) ''a.jpg'' silent) =
     Inr ((grey_photo 3)\<lparr>img_size := (3, 2), pixels := Inr [[[6], [5], [4]], [[3], [2], [1]]]\<rparr>) \<and>
   fst (apply_exif_orientation (grey_photo 6) ''a.jpg'' silent) =
     Inr ((grey_photo 6)\<lparr>img_size := (2, 3), pixels := Inr [[[4], [1]], [[5], [2]], [[6], [3]]]\<rparr>) \<and>
   fst (apply_exif_orientation (grey_photo 8) ''a.jpg'' silent) =
     Inr ((grey_photo 8)\<lparr>img_size := (2, 3), pixels := Inr [[[3], [6]], [[2], [5]], [[1], [4]]]\<rparr>) \<and>
   fst (apply_exif_orientation (grey_photo 1) ''a.jpg'' silent) = Inr (grey_photo 1) \<and>
   fst (apply_exif_orientation (grey_photo 5) ''a.jpg'' silent) = Inr (grey_photo 5) \<and>
   fst (apply_exif_orientation (grey_photo 0) ''a.jpg'' silent) = Inr (grey_photo 0) \<and>
   fst (apply_exif_orientation ((grey_photo 1)\<lparr>getexif := Inr (Some [(271, 7)])\<rparr>) ''a.jpg'' silent) =
     Inr ((grey_photo 1)\<lparr>getexif := Inr (Some [(271, 7)])\<rparr>) \<and>
   fst (apply_exif_orientation rgb_photo ''c.jpg'' silent) = Inr rgb_photo \<and>
   fst (apply_exif_orientation (rgb_photo\<lparr>getexif := Inl (Exc AttributeError ''_getexif'')\<rparr>) ''c.jpg'' silent) =
     Inr (rgb_photo\<lparr>getexif := Inl (Exc AttributeError ''_getexif'')\<rparr>)"
proof -
  note defs = grey_photo_def grey_rows_def rgb_photo_def rgb_rows_def rotate_90_def
    rotate_180_def rotate_270_def raster_size_def raster_width_def exif_handled_def
  have g: "\<And>code. pixels (grey_photo code) = Inr grey_rows"
    by (simp add: grey_photo_def)
  have "fst (apply_exif_orientation (grey_photo 3) ''a.jpg'' silent) =
     Inr ((grey_photo 3)\<lparr>img_size := (3, 2), pixels := Inr [[[6], [5], [4]], [[3], [2], [1]]]\<rparr>)"
    using apply_exif_orientation_mapping [OF g, where code = 3 and exif = "[(271, 7), (274, 3)]"
      and file_path = "''a.jpg''" and w = silent]
    by (simp add: defs)
  moreover have "fst (apply_exif_orientation (grey_photo 6) ''a.jpg'' silent) =
     Inr ((grey_photo 6)\<lparr>img_size := (2, 3), pixels := Inr [[[4], [1]], [[5], [2]], [[6], [3]]]\<rparr>)"
    using apply_exif_orientation_mapping [OF g, where code = 6 and exif = "[(271, 7), (274, 6)]"
      and file_path = "''a.jpg''" and w = silent]
    by (simp add: defs)
  moreover have "fst (apply_exif_orientation (grey_photo 8) ''a.jpg'' silent) =
     Inr ((grey_photo 8)\<lparr>img_size := (2, 3), pixels := Inr [[[3], [6]], [[2], [5]], [[1], [4]]]\<rparr>)"
    using apply_exif_orientation_mapping [OF g, where code = 8 and exif = "[(271, 7), (274, 8)]"
      and file_path = "''a.jpg''" and w = silent]
    by (simp add: defs)
  moreover have "fst (apply_exif_orientation (grey_photo 1) ''a.jpg'' silent) = Inr (grey_photo 1)"
    using apply_exif_orientation_mapping [OF g, where code = 1 and exif = "[(271, 7), (274, 1)]"
      and file_path = "''a.jpg''" and w = silent]
    by (simp add: defs)
  moreover have "fst (apply_exif_orientation (grey_photo 5) ''a.jpg'' silent) = Inr (grey_photo 5)"
    using apply_exif_orientation_mapping [OF g, where code = 5 and exif = "[(271, 7), (274, 5)]"
      and file_path = "''a.jpg''" and w = silent]
    by (simp add: defs)
  moreover have "fst (apply_exif_orientation (grey_photo 0) ''a.jpg'' silent) = Inr (grey_photo 0)"
    using apply_exif_orientation_mapping [OF g, where code = 0 and exif = "[(271, 7), (274, 0)]"
      and file_path = "''a.jpg''" and w = silent]
    by (simp add: defs)
  moreover have "fst (apply_exif_orientation ((grey_photo 1)\<lparr>getexif := Inr (Some [(271, 7)])\<rparr>) ''a.jpg'' silent) =
     Inr ((grey_photo 1)\<lparr>getexif := Inr (Some [(271, 7)])\<rparr>)"
    using apply_exif_orientation_mapping [where img = "(grey_photo 1)\<lparr>getexif := Inr (Some [(271, 7)])\<rparr>"
      and rows = grey_rows and exif = "[(271, 7)]" and file_path = "''a.jpg''" and w = silent]
    by (simp add: defs)
  moreover have "fst (apply_exif_orientation rgb_photo ''c.jpg'' silent) = Inr rgb_photo"
    using apply_exif_orientation_mapping [where img = rgb_photo
      and rows = rgb_rows and file_path = "''c.jpg''" and w = silent]
    by (simp add: defs)
  moreover have "fst (apply_exif_orientation (rgb_photo\<lparr>getexif := Inl (Exc AttributeError ''_getexif'')\<rparr>) ''c.jpg'' silent) =
     Inr (rgb_photo\<lparr>getexif := Inl (Exc AttributeError ''_getexif'')\<rparr>)"
    using apply_exif_orientation_mapping [where img = "rgb_photo\<lparr>getexif := Inl (Exc AttributeError ''_getexif'')\<rparr>"
      and rows = rgb_rows and e = "Exc AttributeError ''_getexif''" and file_path = "''c.jpg''" and w = silent]
    by (simp add: defs)
  ultimately show ?thesis by blast
qed

text \<open>
  C1: the claim is that, for every decoded image, \<^verbatim>\<open>apply_exif_orientation\<close> rotates by 180,
  270 and 90 degrees for the orientations 3, 6 and 8 and returns the image unchanged for
  every other value and whenever no EXIF orientation is readable. The mapping holds, as
  shown above, but the last clause does not: on a decoded photo whose EXIF block makes
  \<^verbatim>\<open>_getexif\<close> raise \<^verbatim>\<open>SyntaxError\<close>, so that no orientation is readable, the function
  does not return the image; the exception leaves it.
\<close>

theorem unreadable_exif_not_returned:
  "decoded bad_exif_photo \<and>
   getexif bad_exif_photo = Inl (Exc SyntaxError ''not a TIFF file (header not valid)'') \<and>
   \<not> exif_handled (Exc SyntaxError ''not a TIFF file (header not valid)'') \<and>
   fst (apply_exif_orientation bad_exif_photo ''e.jpg'' silent) =
     Inl (Exc SyntaxError ''not a TIFF file (header not valid)'') \<and>
   fst (apply_exif_orientation bad_exif_photo ''e.jpg'' silent) \<noteq> Inr bad_exif_photo"
  by code_simp

lemma decoded_rect:
  "decoded img \<Longrightarrow> img_size img = (wd, ht) \<Longrightarrow> pixels img = Inr rows \<Longrightarrow> rect wd ht rows"
  by (simp add: decoded_def)

text \<open>
  C7: on a decoded image of width \<open>wd\<close> and height \<open>ht\<close>, orientations 6 and 8 yield
  an image of width \<open>ht\<close> and height \<open>wd\<close>, orientation 3 one of the same size; the
  result is again a full raster of its announced size, and every pixel of the input is
  found at its rotated position, so no corner is cropped.
\<close>

theorem orientation_canvas_expands:
  assumes "decoded img" and "img_size img = (wd, ht)" and "pixels img = Inr rows"
    and "getexif img = Inr (Some exif)" and "map_of exif 274 = Some code"
  shows "(code = 6 \<longrightarrow>
            (\<exists>out rows'. fst (apply_exif_orientation img file_path w) = Inr out \<and>
               img_size out = (ht, wd) \<and> pixels out = Inr rows' \<and> decoded out \<and>
               (\<forall>x<wd. \<forall>y<ht. rows' ! x ! (ht - 1 - y) = rows ! y ! x))) \<and>
         (code = 8 \<longrightarrow>
            (\<exists>out rows'. fst (apply_exif_orientation img file_path w) = Inr out \<and>
               img_size out = (ht, wd) \<and> pixels out = Inr rows' \<and> decoded out \<and>
               (\<forall>x<wd. \<forall>y<ht. rows' ! (wd - 1 - x) ! y = rows ! y ! x))) \<and>
         (code = 3 \<longrightarrow>
            (\<exists>out rows'. fst (apply_exif_orientation img file_path w) = Inr out \<and>
               img_size out = (wd, ht) \<and> pixels out = Inr rows' \<and> decoded out \<and>
               (\<forall>x<wd. \<forall>y<ht. rows' ! (ht - 1 - y) ! (wd - 1 - x) = rows ! y ! x)))"
proof -
  have r: "rect wd ht rows" using assms(1-3) by (rule decoded_rect)
  note rot = rotate_decoded [OF assms(3)] rotate_raster_angles
  have "code = 6 \<Longrightarrow> fst (apply_exif_orientation img file_path w) = rotate_img 270 img"
    using assms(4,5) by (simp add: apply_fst body_rotating rot)
  then have c6: "code = 6 \<Longrightarrow> fst (apply_exif_orientation img file_path w) =
      Inr (img\<lparr>img_size := (ht, wd), pixels := Inr (rotate_270 rows)\<rparr>)"
    using rect_size [OF rect_rotate_270 [OF r]] by (simp add: rot)
  have "code = 8 \<Longrightarrow> fst (apply_exif_orientation img file_path w) = rotate_img 90 img"
    using assms(4,5) by (simp add: apply_fst body_rotating rot)
  then have c8: "code = 8 \<Longrightarrow> fst (apply_exif_orientation img file_path w) =
      Inr (img\<lparr>img_size := (ht, wd), pixels := Inr (rotate_90 rows)\<rparr>)"
    using rect_size [OF rect_rotate_90 [OF r]] by (simp add: rot)
  have "code = 3 \<Longrightarrow> fst (apply_exif_orientation img file_path w) = rotate_img 180 img"
    using assms(4,5) by (simp add: apply_fst body_rotating rot)
  then have c3: "code = 3 \<Longrightarrow> fst (apply_exif_orientation img file_path w) =
      Inr (img\<lparr>img_size := (wd, ht), pixels := Inr (rotate_180 rows)\<rparr>)"
    using rect_size [OF rect_rotate_180 [OF r]] by (simp add: rot)
  have d6: "decoded (img\<lparr>img_size := (ht, wd), pixels := Inr (rotate_270 rows)\<rparr>)"
    using rect_rotate_270 [OF r] by (simp add: decoded_def)
  have d8: "decoded (img\<lparr>img_size := (ht, wd), pixels := Inr (rotate_90 rows)\<rparr>)"
    using rect_rotate_90 [OF r] by (simp add: decoded_def)
  have d3: "decoded (img\<lparr>img_size := (wd, ht), pixels := Inr (rotate_180 rows)\<rparr>)"
    using rect_rotate_180 [OF r] by (simp add: decoded_def)
  show ?thesis
  proof (intro conjI impI)
    assume "code = 6"
    then show "\<exists>out rows'. fst (apply_exif_orientation img file_path w) = Inr out \<and>
               img_size out = (ht, wd) \<and> pixels out = Inr rows' \<and> decoded out \<and>
               (\<forall>x<wd. \<forall>y<ht. rows' ! x ! (ht - 1 - y) = rows ! y ! x)"
      using c6 d6 nth_rotate_270 [OF r] by simp
  next
    assume "code = 8"
    then show "\<exists>out rows'. fst (apply_exif_orientation img file_path w) = Inr out \<and>
               img_size out = (ht, wd) \<and> pixels out = Inr rows' \<and> decoded out \<and>
               (\<forall>x<wd. \<forall>y<ht. rows' ! (wd - 1 - x) ! y = rows ! y ! x)"
      using c8 d8 nth_rotate_90 [OF r] by simp
  next
    assume "code = 3"
    then show "\<exists>out rows'. fst (apply_exif_orientation img file_path w) = Inr out \<and>
               img_size out = (wd, ht) \<and> pixels out = Inr rows' \<and> decoded out \<and>
               (\<forall>x<wd. \<forall>y<ht. rows' ! (ht - 1 - y) ! (wd - 1 - x) = rows ! y ! x)"
      using c3 d3 nth_rotate_180 [OF r] by simp
  qed
qed

theorem orientation_canvas_expands_witness:
  "decoded (grey_photo 6) \<and> img_size (grey_photo 6) = (3, 2) \<and>
   (\<exists>out. fst (apply_exif_orientation (grey_photo 6) ''a.jpg'' silent) = Inr out \<and>
      img_size out = (2, 3) \<and> decoded out) \<and>
   (\<exists>out. fst (apply_exif_orientation (grey_photo 8) ''a.jpg'' silent) = Inr out \<and>
      img_size out = (2, 3) \<and> decoded out) \<and>
   (\<exists>out. fst (apply_exif_orientation (grey_photo 3) ''a.jpg'' silent) = Inr out \<and>
      img_size out = (3, 2) \<and> decoded out)"
proof -
  have d: "\<And>code. decoded (grey_photo code)"
    by (simp add: decoded_def grey_photo_def grey_rows_def rect_def)
  have s: "\<And>code. img_size (grey_photo code) = (3, 2)"
    by (simp add: grey_photo_def)
  have p: "\<And>code. pixels (grey_photo code) = Inr grey_rows"
    by (simp add: grey_photo_def)
  have e: "\<And>code. getexif (grey_photo code) = Inr (Some [(271, 7), (274, code)])"
    by (simp add: grey_photo_def)
  have m: "\<And>code. map_of [(271, 7), (274, code)] (274::int) = Some (code::int)"
    by simp
  have "6 = (6::int)" and "8 = (8::int)" and "3 = (3::int)"
    by simp_all
  then obtain o6 o8 o3 where
    "fst (apply_exif_orientation (grey_photo 6) ''a.jpg'' silent) = Inr o6"
    "img_size o6 = (2, 3)" "decoded o6"
    "fst (apply_exif_orientation (grey_photo 8) ''a.jpg'' silent) = Inr o8"
    "img_size o8 = (2, 3)" "decoded o8"
    "fst (apply_exif_orientation (grey_photo 3) ''a.jpg'' silent) = Inr o3"
    "img_size o3 = (3, 2)" "decoded o3"
    using
      orientation_canvas_expands [OF d s p e m, of 6 "''a.jpg''" silent]
      orientation_canvas_expands [OF d s p e m, of 8 "''a.jpg''" silent]
      orientation_canvas_expands [OF d s p e m, of 3 "''a.jpg''" silent]
    by metis
  then show ?thesis
    using d s by simp
qed

text \<open>
  C4: the claim is that \<^verbatim>\<open>apply_exif_orientation\<close> never raises, whatever the state of
  the EXIF metadata. On a photo whose EXIF block makes \<^verbatim>\<open>_getexif\<close> raise
  \<^verbatim>\<open>SyntaxError\<close>, a class the handler does not name, the exception leaves the function;
  the outer handler of \<^verbatim>\<open>convert_jpegs_to_pdf\<close> then fails the whole run and no document
  is written.
\<close>

theorem bad_exif_escapes:
  "fst (apply_exif_orientation bad_exif_photo ''e.jpg'' sample_world) =
     Inl (Exc SyntaxError ''not a TIFF file (header not valid)'') \<and>
   fst (convert_jpegs_to_pdf sample_codec [''a.jpg'', ''e.jpg''] ''out.pdf'' sample_world) = False \<and>
   fs (snd (convert_jpegs_to_pdf sample_codec [''a.jpg'', ''e.jpg''] ''out.pdf'' sample_world)) ''out.pdf'' = None"
  by code_simp

section \<open>Properties of the loop\<close>

lemma image_open_print [simp]: "image_open (print l w) file_path = image_open w file_path"
  by (simp add: image_open_def)

lemma opened_images_fs: "fs w = fs w' \<Longrightarrow> opened_images w ps = opened_images w' ps"
  by (simp add: opened_images_def image_open_def)

lemma opened_images_Nil [simp]: "opened_images w [] = []"
  by (simp add: opened_images_def map_filter_simps)

lemma opened_images_Cons:
  "opened_images w (p # ps) =
     (case image_open w p of
        Inl e \<Rightarrow> opened_images w ps
      | Inr img \<Rightarrow> img # opened_images w ps)"
  by (simp add: opened_images_def map_filter_simps split: sum.splits)


lemma process_opened_result:
  "process_opened c img file_path w =
     (case oriented img of
        Inl e \<Rightarrow> (Inl e, snd (apply_exif_orientation img file_path w))
      | Inr img1 \<Rightarrow>
          if mode img1 \<noteq> ''RGB'' then
            (case convert c ''RGB'' img1 of
               Inl e \<Rightarrow> (Inl e, snd (apply_exif_orientation img file_path w))
             | Inr img2 \<Rightarrow>
                 (Inr img2, print (ConvertedToRGB (mode img1)) (snd (apply_exif_orientation img file_path w))))
          else (Inr img1, print AlreadyRGB (snd (apply_exif_orientation img file_path w))))"
  using apply_fst_oriented [of img file_path w]
  by (cases "apply_exif_orientation img file_path w")
     (simp add: process_opened_def split: sum.splits)

lemma page_of_oriented:
  "page_of c img =
     (case oriented img of
        Inl e \<Rightarrow> Inl e
      | Inr img1 \<Rightarrow> if mode img1 \<noteq> ''RGB'' then convert c ''RGB'' img1 else Inr img1)"
  by (simp add: page_of_def process_opened_result split: sum.splits)

lemma process_opened_fst: "fst (process_opened c img file_path w) = page_of c img"
  by (simp add: page_of_oriented process_opened_result split: sum.splits)

lemma process_opened_fs: "fs (snd (process_opened c img file_path w)) = fs w"
  by (simp add: process_opened_result apply_fs split: sum.splits)

lemma process_opened_dialogs: "dialogs (snd (process_opened c img file_path w)) = dialogs w"
  by (simp add: process_opened_result apply_dialogs split: sum.splits)

lemma process_files_fs: "fs (snd (process_files c n i ps acc w)) = fs w"
proof (induction ps arbitrary: i acc w)
  case Nil
  show ?case by simp
next
  case (Cons p ps)
  show ?case
  proof (cases "image_open w p")
    case (Inl e)
    then show ?thesis using Cons.IH by simp
  next
    case (Inr img)
    let ?w1 = "print (OpenedSuccessfully (fst (img_size img)) (snd (img_size img)) (mode img))
                 (print (Processing i n p) w)"
    obtain r w2 where po: "process_opened c img p ?w1 = (r, w2)"
      by (cases "process_opened c img p ?w1")
    have "fs w2 = fs w" using process_opened_fs [of c img p ?w1] po by simp
    then show ?thesis using Inr po Cons.IH by (cases r) simp_all
  qed
qed

lemma process_files_dialogs: "dialogs (snd (process_files c n i ps acc w)) = dialogs w"
proof (induction ps arbitrary: i acc w)
  case Nil
  show ?case by simp
next
  case (Cons p ps)
  show ?case
  proof (cases "image_open w p")
    case (Inl e)
    then show ?thesis using Cons.IH by simp
  next
    case (Inr img)
    let ?w1 = "print (OpenedSuccessfully (fst (img_size img)) (snd (img_size img)) (mode img))
                 (print (Processing i n p) w)"
    obtain r w2 where po: "process_opened c img p ?w1 = (r, w2)"
      by (cases "process_opened c img p ?w1")
    have "dialogs w2 = dialogs w" using process_opened_dialogs [of c img p ?w1] po by simp
    then show ?thesis using Inr po Cons.IH by (cases r) simp_all
  qed
qed

text \<open>The loop returns exactly when every opened image yields a page, and then the pages in order.\<close>

lemma process_files_pages:
  "fst (process_files c n i ps acc w) = Inr res \<longleftrightarrow>
     (\<exists>pages. res = acc @ pages \<and> map (page_of c) (opened_images w ps) = map Inr pages)"
proof (induction ps arbitrary: i acc w)
  case Nil
  show ?case by auto
next
  case (Cons p ps)
  show ?case
  proof (cases "image_open w p")
    case (Inl e)
    have "opened_images (print (FailedToOpen (str e)) (print (Processing i n p) w)) ps = opened_images w ps"
      by (rule opened_images_fs) simp
    then show ?thesis using Inl Cons.IH by (simp add: opened_images_Cons)
  next
    case (Inr img)
    let ?w1 = "print (OpenedSuccessfully (fst (img_size img)) (snd (img_size img)) (mode img))
                 (print (Processing i n p) w)"
    obtain r w2 where po: "process_opened c img p ?w1 = (r, w2)"
      by (cases "process_opened c img p ?w1")
    have r: "r = page_of c img" using process_opened_fst [of c img p ?w1] po by simp
    have w2: "fs w2 = fs w" using process_opened_fs [of c img p ?w1] po by simp
    show ?thesis
    proof (cases r)
      case (Inl e)
      then show ?thesis using Inr po r by (auto simp: opened_images_Cons)
    next
      case (Inr page)
      have o: "opened_images (print SuccessfullyProcessed w2) ps = opened_images w ps"
        by (rule opened_images_fs) (simp add: w2)
      have "fst (process_files c n i (p # ps) acc w) =
            fst (process_files c n (i + 1) ps (acc @ [page]) (print SuccessfullyProcessed w2))"
        using \<open>image_open w p = Inr img\<close> po Inr by simp
      then have "fst (process_files c n i (p # ps) acc w) = Inr res \<longleftrightarrow>
          (\<exists>pages. res = (acc @ [page]) @ pages \<and> map (page_of c) (opened_images w ps) = map Inr pages)"
        using Cons.IH [of "i + 1" "acc @ [page]" "print SuccessfullyProcessed w2"] o by simp
      also have "\<dots> \<longleftrightarrow> (\<exists>pages. res = acc @ pages \<and>
          map (page_of c) (opened_images w (p # ps)) = map Inr pages)"
      proof
        assume "\<exists>pages. res = (acc @ [page]) @ pages \<and> map (page_of c) (opened_images w ps) = map Inr pages"
        then obtain pages where "res = acc @ (page # pages)"
          "map (page_of c) (opened_images w ps) = map Inr pages" by auto
        then have "res = acc @ (page # pages) \<and>
          map (page_of c) (opened_images w (p # ps)) = map Inr (page # pages)"
          using \<open>image_open w p = Inr img\<close> r Inr by (simp add: opened_images_Cons)
        then show "\<exists>pages. res = acc @ pages \<and>
          map (page_of c) (opened_images w (p # ps)) = map Inr pages" by blast
      next
        assume "\<exists>pages. res = acc @ pages \<and>
          map (page_of c) (opened_images w (p # ps)) = map Inr pages"
        then obtain pages where a: "res = acc @ pages"
          "page_of c img # map (page_of c) (opened_images w ps) = map Inr pages"
          using \<open>image_open w p = Inr img\<close> by (auto simp: opened_images_Cons)
        then obtain pages' where "pages = page # pages'"
          "map (page_of c) (opened_images w ps) = map Inr pages'"
          using r Inr by (cases pages) auto
        then show "\<exists>pages. res = (acc @ [page]) @ pages \<and>
          map (page_of c) (opened_images w ps) = map Inr pages"
          using a by simp
      qed
      finally show ?thesis .
    qed
  qed
qed

lemma process_files_raises:
  assumes "img \<in> set (opened_images w ps)" and "page_of c img = Inl e"
  shows "\<exists>e'. fst (process_files c n i ps acc w) = Inl e'"
proof (cases "fst (process_files c n i ps acc w)")
  case (Inl e')
  then show ?thesis by blast
next
  case (Inr res)
  then obtain pages where "map (page_of c) (opened_images w ps) = map Inr pages"
    using process_files_pages by blast
  then have "page_of c img \<in> set (map Inr pages)"
    using assms(1) by (metis image_eqI set_map)
  then show ?thesis using assms(2) by auto
qed


section \<open>Properties of the document assembler\<close>

lemma convert_unfold:
  assumes "jpeg_files \<noteq> []" and "output_path \<noteq> []"
    and "process_files c (length jpeg_files) 1 jpeg_files []
           (print (ProcessingImages (length jpeg_files)) w) = (r, w1)"
  shows "convert_jpegs_to_pdf c jpeg_files output_path w =
     (case r of
        Inl e \<Rightarrow>
          (False, showerror ''Conversion Error'' (''Failed to create PDF: '' @ str e)
                    (print (ErrorLine (''Failed to create PDF: '' @ str e)) w1))
      | Inr [] \<Rightarrow> (False, print NoImagesProcessed w1)
      | Inr (first # others) \<Rightarrow>
          (case (case write_error c output_path of
                   Some e \<Rightarrow> Some e
                 | None \<Rightarrow> first_decode_error (first # others)) of
             Some e \<Rightarrow>
               (False, showerror ''Conversion Error'' (''Failed to create PDF: '' @ str e)
                         (print (ErrorLine (''Failed to create PDF: '' @ str e))
                            (print (CreatingPdf (length (first # others))) w1)))
           | None \<Rightarrow>
               (True,
                print (FileSize (encoded_size c (first # others)))
                  (print (OutputLocation output_path)
                     (print PdfCreated
                        ((print (CreatingPdf (length (first # others))) w1)
                           \<lparr>fs := (fs w1)(output_path \<mapsto>
                                \<lparr>nbytes = encoded_size c (first # others),
                                 content = Document (first # others) 100\<rparr>)\<rparr>))))))"
proof (cases r)
  case (Inl e)
  then show ?thesis using assms by (simp add: convert_jpegs_to_pdf_def convert_body_def)
next
  case (Inr res)
  show ?thesis
  proof (cases res)
    case Nil
    then show ?thesis using assms Inr by (simp add: convert_jpegs_to_pdf_def convert_body_def)
  next
    case (Cons first others)
    have len: "(if others \<noteq> [] then others else []) = others"
      "(if others = [] then [] else others) = others"
      by simp_all
    show ?thesis
      using assms Inr Cons
      by (simp add: convert_jpegs_to_pdf_def convert_body_def save_def getsize_def print_def
          len del: first_decode_error.simps split: option.splits split del: if_split)
  qed
qed

lemma showerror_fs [simp]: "fs (showerror t m w) = fs w"
  by (simp add: showerror_def)

lemma showerror_dialogs [simp]: "dialogs (showerror t m w) = dialogs w @ [ShowError t m]"
  by (simp add: showerror_def)

lemma fs_print_update [simp]: "fs (print l w\<lparr>fs := f\<rparr>) = f"
  by (simp add: print_def)

lemma dialogs_print_update [simp]: "dialogs (print l w\<lparr>fs := f\<rparr>) = dialogs w"
  by (simp add: print_def)

text \<open>What a successful run has done.\<close>

lemma convert_success:
  assumes "convert_jpegs_to_pdf c jpeg_files output_path w = (True, w')"
  shows "\<exists>pages. pages \<noteq> [] \<and>
           map (page_of c) (opened_images w jpeg_files) = map Inr pages \<and>
           fs w' = (fs w)(output_path \<mapsto>
                     \<lparr>nbytes = encoded_size c pages, content = Document pages 100\<rparr>) \<and>
           dialogs w' = dialogs w \<and>
           write_error c output_path = None \<and> first_decode_error pages = None"
proof -
  have ne: "jpeg_files \<noteq> []" "output_path \<noteq> []"
    using assms by (auto simp: convert_jpegs_to_pdf_def split: if_splits)
  let ?w0 = "print (ProcessingImages (length jpeg_files)) w"
  obtain r w1 where pf: "process_files c (length jpeg_files) 1 jpeg_files [] ?w0 = (r, w1)"
    by (cases "process_files c (length jpeg_files) 1 jpeg_files [] ?w0")
  have w1: "fs w1 = fs w" "dialogs w1 = dialogs w"
    using process_files_fs [of c "length jpeg_files" 1 jpeg_files "[]" ?w0]
      process_files_dialogs [of c "length jpeg_files" 1 jpeg_files "[]" ?w0] pf by simp_all
  note u = convert_unfold [OF ne pf, of ]
  obtain first others where r: "r = Inr (first # others)"
    using assms u by (cases r; cases "projr r") (auto split: list.splits)
  have "fst (process_files c (length jpeg_files) 1 jpeg_files [] ?w0) = Inr (first # others)"
    using pf r by simp
  then have pages: "map (page_of c) (opened_images ?w0 jpeg_files) = map Inr (first # others)"
    using process_files_pages [of c "length jpeg_files" 1 jpeg_files "[]" ?w0 "first # others"]
    by simp
  have "opened_images ?w0 jpeg_files = opened_images w jpeg_files"
    by (rule opened_images_fs) simp
  then have pages': "map (page_of c) (opened_images w jpeg_files) = map Inr (first # others)"
    using pages by simp
  have ok: "write_error c output_path = None" "first_decode_error (first # others) = None"
    using assms u r by (auto split: option.splits)
  have "w' = print (FileSize (encoded_size c (first # others)))
                  (print (OutputLocation output_path)
                     (print PdfCreated
                        ((print (CreatingPdf (length (first # others))) w1)
                           \<lparr>fs := (fs w1)(output_path \<mapsto>
                                \<lparr>nbytes = encoded_size c (first # others),
                                 content = Document (first # others) 100\<rparr>)\<rparr>)))"
    using assms u r ok by simp
  then have "fs w' = (fs w)(output_path \<mapsto>
        \<lparr>nbytes = encoded_size c (first # others), content = Document (first # others) 100\<rparr>)"
    and "dialogs w' = dialogs w"
    using w1 by simp_all
  then show ?thesis using pages' ok by blast
qed


lemma document_pages_written:
  "fs w' = (fs w)(path \<mapsto> \<lparr>nbytes = sz, content = Document pages resolution\<rparr>) \<Longrightarrow>
   document_pages w' path = Some pages"
  by (simp add: document_pages_def)






lemma convert_mode: "convert c m img = Inr page \<Longrightarrow> mode page = m"
  by (auto simp: convert_def split: sum.splits)

lemma page_of_rgb:
  assumes "page_of c img = Inr page"
  shows "mode page = ''RGB''"
    and "\<exists>img1. oriented img = Inr img1 \<and>
           (if mode img1 = ''RGB'' then page = img1 else convert c ''RGB'' img1 = Inr page)"
  using assms by (auto simp: page_of_oriented convert_mode split: sum.splits if_splits)

lemma pages_rgb:
  "map (page_of c) imgs = map Inr pages \<Longrightarrow>
   list_all (\<lambda>page. mode page = ''RGB'') pages \<and>
   list_all2 (\<lambda>img page. \<exists>img1. oriented img = Inr img1 \<and>
       (if mode img1 = ''RGB'' then page = img1 else convert c ''RGB'' img1 = Inr page)) imgs pages"
proof (induction imgs arbitrary: pages)
  case Nil
  then show ?case by simp
next
  case (Cons img imgs)
  then obtain page rest where "pages = page # rest" "page_of c img = Inr page"
    "map (page_of c) imgs = map Inr rest"
    by (cases pages) auto
  then show ?case using Cons.IH [of rest] page_of_rgb [of c img page] by simp
qed

text \<open>
  C3: whenever the loop completes, every image of the page collection it has built is in
  RGB mode, and the page made from an opened image is the orientation-corrected image
  itself when that is already RGB and its conversion to RGB otherwise; so every page of
  the document of a successful run is in RGB mode.
\<close>

theorem pages_are_rgb:
  "(fst (process_files c n i jpeg_files [] w) = Inr processed_images \<longrightarrow>
      list_all (\<lambda>page. mode page = ''RGB'') processed_images \<and>
      list_all2 (\<lambda>img page. \<exists>img1. oriented img = Inr img1 \<and>
          (if mode img1 = ''RGB'' then page = img1 else convert c ''RGB'' img1 = Inr page))
        (opened_images w jpeg_files) processed_images) \<and>
   (convert_jpegs_to_pdf c jpeg_files output_path w = (True, w') \<longrightarrow>
      (\<exists>pages. document_pages w' output_path = Some pages \<and>
         list_all (\<lambda>page. mode page = ''RGB'') pages))"
proof (intro conjI impI)
  assume "fst (process_files c n i jpeg_files [] w) = Inr processed_images"
  then have "map (page_of c) (opened_images w jpeg_files) = map Inr processed_images"
    using process_files_pages [of c n i jpeg_files "[]" w processed_images] by simp
  then show "list_all (\<lambda>page. mode page = ''RGB'') processed_images"
    and "list_all2 (\<lambda>img page. \<exists>img1. oriented img = Inr img1 \<and>
          (if mode img1 = ''RGB'' then page = img1 else convert c ''RGB'' img1 = Inr page))
        (opened_images w jpeg_files) processed_images"
    using pages_rgb by blast+
next
  assume run: "convert_jpegs_to_pdf c jpeg_files output_path w = (True, w')"
  obtain pages where p: "map (page_of c) (opened_images w jpeg_files) = map Inr pages"
    and f: "fs w' = (fs w)(output_path \<mapsto>
              \<lparr>nbytes = encoded_size c pages, content = Document pages 100\<rparr>)"
    using convert_success [OF run] by blast
  show "\<exists>pages. document_pages w' output_path = Some pages \<and>
         list_all (\<lambda>page. mode page = ''RGB'') pages"
    using document_pages_written [OF f] pages_rgb [OF p] by blast
qed

theorem pages_are_rgb_witness:
  "map mode (opened_images sample_world [''a.jpg'', ''c.jpg'']) = [''L'', ''RGB''] \<and>
   (\<exists>processed_images.
      fst (process_files sample_codec 2 1 [''a.jpg'', ''c.jpg''] [] sample_world) = Inr processed_images \<and>
      list_all (\<lambda>page. mode page = ''RGB'') processed_images) \<and>
   fst (convert_jpegs_to_pdf sample_codec [''a.jpg'', ''c.jpg''] ''out.pdf'' sample_world) = True \<and>
   (\<exists>pages. document_pages
        (snd (convert_jpegs_to_pdf sample_codec [''a.jpg'', ''c.jpg''] ''out.pdf'' sample_world))
        ''out.pdf'' = Some pages \<and>
      list_all (\<lambda>page. mode page = ''RGB'') pages)"
proof -
  let ?run = "convert_jpegs_to_pdf sample_codec [''a.jpg'', ''c.jpg''] ''out.pdf'' sample_world"
  let ?pages = "[\<lparr>img_size = (2, 3), mode = ''RGB'', getexif = Inr (Some [(271, 7), (274, 6)]),
                  pixels = Inr [[[4, 4, 4], [1, 1, 1]], [[5, 5, 5], [2, 2, 2]], [[6, 6, 6], [3, 3, 3]]]\<rparr>,
                 rgb_photo]"
  have t: "fst ?run = True" by code_simp
  then have h: "?run = (True, snd ?run)" by (simp add: prod_eq_iff)
  have l: "fst (process_files sample_codec 2 1 [''a.jpg'', ''c.jpg''] [] sample_world) = Inr ?pages"
    by code_simp
  have m: "map mode (opened_images sample_world [''a.jpg'', ''c.jpg'']) = [''L'', ''RGB'']"
    by code_simp
  show ?thesis
    using pages_are_rgb [of sample_codec 2 1 "[''a.jpg'', ''c.jpg'']" sample_world ?pages
        "''out.pdf''" "snd ?run"] h l t m
    by auto
qed

lemma opened_images_none:
  "\<forall>file_path \<in> set ps. \<not> opens w file_path \<Longrightarrow> opened_images w ps = []"
  by (induction ps) (auto simp: opened_images_Cons opens_def split: sum.splits)

lemma convert_no_pages:
  assumes "jpeg_files \<noteq> []" and "output_path \<noteq> []" and "opened_images w jpeg_files = []"
  shows "fst (convert_jpegs_to_pdf c jpeg_files output_path w) = False"
    and "fs (snd (convert_jpegs_to_pdf c jpeg_files output_path w)) = fs w"
proof -
  let ?w0 = "print (ProcessingImages (length jpeg_files)) w"
  obtain r w1 where pf: "process_files c (length jpeg_files) 1 jpeg_files [] ?w0 = (r, w1)"
    by (cases "process_files c (length jpeg_files) 1 jpeg_files [] ?w0")
  have w1: "fs w1 = fs w"
    using process_files_fs [of c "length jpeg_files" 1 jpeg_files "[]" ?w0] pf by simp
  have "opened_images ?w0 jpeg_files = []"
    using assms(3) opened_images_fs [of ?w0 w jpeg_files] by simp
  then have "fst (process_files c (length jpeg_files) 1 jpeg_files [] ?w0) = Inr []"
    using process_files_pages [of c "length jpeg_files" 1 jpeg_files "[]" ?w0 "[]"] by simp
  then have r: "r = Inr []" using pf by simp
  show "fst (convert_jpegs_to_pdf c jpeg_files output_path w) = False"
    and "fs (snd (convert_jpegs_to_pdf c jpeg_files output_path w)) = fs w"
    using convert_unfold [OF assms(1,2) pf] r w1 by simp_all
qed

text \<open>
  C5: \<^verbatim>\<open>convert_jpegs_to_pdf\<close> returns \<^verbatim>\<open>False\<close> and leaves the file system as it was
  when the input collection is empty, when the destination path is empty, and when no
  input opens.
\<close>

theorem nothing_to_convert:
  assumes "jpeg_files = [] \<or> output_path = [] \<or> (\<forall>file_path \<in> set jpeg_files. \<not> opens w file_path)"
  shows "fst (convert_jpegs_to_pdf c jpeg_files output_path w) = False \<and>
         fs (snd (convert_jpegs_to_pdf c jpeg_files output_path w)) = fs w"
proof (cases "jpeg_files = [] \<or> output_path = []")
  case True
  then show ?thesis by (auto simp: convert_jpegs_to_pdf_def)
next
  case False
  then have "opened_images w jpeg_files = []"
    using assms opened_images_none by blast
  then show ?thesis using False convert_no_pages [of jpeg_files output_path w c] by simp
qed

theorem nothing_to_convert_witness:
  "fst (convert_jpegs_to_pdf sample_codec [] ''out.pdf'' sample_world) = False \<and>
   fs (snd (convert_jpegs_to_pdf sample_codec [] ''out.pdf'' sample_world)) = fs sample_world \<and>
   fst (convert_jpegs_to_pdf sample_codec [''a.jpg''] [] sample_world) = False \<and>
   fs (snd (convert_jpegs_to_pdf sample_codec [''a.jpg''] [] sample_world)) = fs sample_world \<and>
   \<not> opens sample_world ''b.jpg'' \<and> \<not> opens sample_world ''missing.jpg'' \<and>
   fst (convert_jpegs_to_pdf sample_codec [''b.jpg'', ''missing.jpg''] ''out.pdf'' sample_world) = False \<and>
   fs (snd (convert_jpegs_to_pdf sample_codec [''b.jpg'', ''missing.jpg''] ''out.pdf'' sample_world)) =
     fs sample_world"
proof -
  have b: "\<not> opens sample_world ''b.jpg''" "\<not> opens sample_world ''missing.jpg''"
    by code_simp+
  then have h: "[''b.jpg'', ''missing.jpg''] = [] \<or> ''out.pdf'' = [] \<or>
      (\<forall>file_path \<in> set [''b.jpg'', ''missing.jpg'']. \<not> opens sample_world file_path)"
    by simp
  show ?thesis
    using b nothing_to_convert [of "[]" "''out.pdf''" sample_world sample_codec]
      nothing_to_convert [of "[''a.jpg'']" "[]" sample_world sample_codec]
      nothing_to_convert [OF h, of sample_codec]
    by simp
qed

text \<open>
  C6: when every opened image has been processed and at least one page exists, and the
  write step raises (the destination cannot be written, or encoding a page fails),
  \<^verbatim>\<open>convert_jpegs_to_pdf\<close> returns \<^verbatim>\<open>False\<close>, shows an error dialog whose message ends
  with the text of the exception, and writes nothing.
\<close>

theorem write_failure_reported:
  assumes "jpeg_files \<noteq> []" and "output_path \<noteq> []" and "pages \<noteq> []"
    and "map (page_of c) (opened_images w jpeg_files) = map Inr pages"
    and "write_error c output_path = Some e \<or>
         (write_error c output_path = None \<and> first_decode_error pages = Some e)"
  shows "fst (convert_jpegs_to_pdf c jpeg_files output_path w) = False \<and>
         dialogs (snd (convert_jpegs_to_pdf c jpeg_files output_path w)) =
           dialogs w @ [ShowError ''Conversion Error'' (''Failed to create PDF: '' @ str e)] \<and>
         fs (snd (convert_jpegs_to_pdf c jpeg_files output_path w)) = fs w"
proof -
  let ?w0 = "print (ProcessingImages (length jpeg_files)) w"
  obtain r w1 where pf: "process_files c (length jpeg_files) 1 jpeg_files [] ?w0 = (r, w1)"
    by (cases "process_files c (length jpeg_files) 1 jpeg_files [] ?w0")
  have w1: "fs w1 = fs w" "dialogs w1 = dialogs w"
    using process_files_fs [of c "length jpeg_files" 1 jpeg_files "[]" ?w0]
      process_files_dialogs [of c "length jpeg_files" 1 jpeg_files "[]" ?w0] pf by simp_all
  have "map (page_of c) (opened_images ?w0 jpeg_files) = map Inr pages"
    using assms(4) opened_images_fs [of ?w0 w jpeg_files] by simp
  then have "fst (process_files c (length jpeg_files) 1 jpeg_files [] ?w0) = Inr pages"
    using process_files_pages [of c "length jpeg_files" 1 jpeg_files "[]" ?w0 pages] by simp
  then have r: "r = Inr pages" using pf by simp
  obtain first others where pages: "pages = first # others"
    using assms(3) by (cases pages) auto
  have "(case write_error c output_path of Some e \<Rightarrow> Some e
         | None \<Rightarrow> first_decode_error (first # others)) = Some e"
    using assms(5) pages by auto
  then show ?thesis
    using convert_unfold [OF assms(1,2) pf] r pages w1 by simp
qed

theorem write_failure_reported_witness:
  "write_error sample_codec ''/ro/out.pdf'' = Some (Exc OSError ''Permission denied'') \<and>
   fst (convert_jpegs_to_pdf sample_codec [''a.jpg'', ''c.jpg''] ''/ro/out.pdf'' sample_world) = False \<and>
   dialogs (snd (convert_jpegs_to_pdf sample_codec [''a.jpg'', ''c.jpg''] ''/ro/out.pdf'' sample_world)) =
     [ShowError ''Conversion Error'' ''Failed to create PDF: Permission denied''] \<and>
   fs (snd (convert_jpegs_to_pdf sample_codec [''a.jpg'', ''c.jpg''] ''/ro/out.pdf'' sample_world)) =
     fs sample_world"
proof -
  let ?pages = "[\<lparr>img_size = (2, 3), mode = ''RGB'', getexif = Inr (Some [(271, 7), (274, 6)]),
                  pixels = Inr [[[4, 4, 4], [1, 1, 1]], [[5, 5, 5], [2, 2, 2]], [[6, 6, 6], [3, 3, 3]]]\<rparr>,
                 rgb_photo]"
  have a: "[''a.jpg'', ''c.jpg''] \<noteq> []" "''/ro/out.pdf'' \<noteq> []" "?pages \<noteq> []"
    by simp_all
  have p: "map (page_of sample_codec) (opened_images sample_world [''a.jpg'', ''c.jpg'']) =
      map Inr ?pages"
    by code_simp
  have e: "write_error sample_codec ''/ro/out.pdf'' = Some (Exc OSError ''Permission denied'')"
    by code_simp
  then have h: "write_error sample_codec ''/ro/out.pdf'' = Some (Exc OSError ''Permission denied'') \<or>
      (write_error sample_codec ''/ro/out.pdf'' = None \<and>
       first_decode_error ?pages = Some (Exc OSError ''Permission denied''))"
    by simp
  have d: "dialogs sample_world = []" by (simp add: sample_world_def)
  show ?thesis using write_failure_reported [OF a p h] e d by simp
qed


lemma opened_images_agree:
  "\<forall>file_path \<in> set ps. fs w1 file_path = fs w2 file_path \<Longrightarrow>
   opened_images w1 ps = opened_images w2 ps"
proof (induction ps)
  case Nil
  show ?case by simp
next
  case (Cons p ps)
  have "image_open w1 p = image_open w2 p"
    using Cons.prems by (simp add: image_open_def)
  then show ?case using Cons by (simp add: opened_images_Cons split: sum.splits)
qed

text \<open>
  C9: two successful runs of the conversion on the same input list, from worlds that hold
  the same files at the input paths, to any two destinations, write documents with the
  same pages: the same number of pages and the same pixel content page by page.
\<close>

theorem conversion_deterministic:
  assumes "\<forall>file_path \<in> set jpeg_files. fs w1 file_path = fs w2 file_path"
    and "convert_jpegs_to_pdf c jpeg_files output_path1 w1 = (True, w1')"
    and "convert_jpegs_to_pdf c jpeg_files output_path2 w2 = (True, w2')"
  shows "\<exists>pages. document_pages w1' output_path1 = Some pages \<and>
           document_pages w2' output_path2 = Some pages"
proof -
  obtain pages1 where p1: "map (page_of c) (opened_images w1 jpeg_files) = map Inr pages1"
    and f1: "fs w1' = (fs w1)(output_path1 \<mapsto>
              \<lparr>nbytes = encoded_size c pages1, content = Document pages1 100\<rparr>)"
    using convert_success [OF assms(2)] by blast
  obtain pages2 where p2: "map (page_of c) (opened_images w2 jpeg_files) = map Inr pages2"
    and f2: "fs w2' = (fs w2)(output_path2 \<mapsto>
              \<lparr>nbytes = encoded_size c pages2, content = Document pages2 100\<rparr>)"
    using convert_success [OF assms(3)] by blast
  have "map Inr pages1 = (map Inr pages2 :: (exc + image) list)"
    using p1 p2 opened_images_agree [OF assms(1)] by simp
  then have "pages1 = pages2"
    by simp
  then show ?thesis
    using document_pages_written [OF f1] document_pages_written [OF f2] by simp
qed

theorem conversion_deterministic_witness:
  "fst (convert_jpegs_to_pdf sample_codec [''a.jpg'', ''b.jpg'', ''c.jpg''] ''one.pdf'' sample_world) = True \<and>
   fst (convert_jpegs_to_pdf sample_codec [''a.jpg'', ''b.jpg'', ''c.jpg''] ''two.pdf''
          (snd (convert_jpegs_to_pdf sample_codec [''a.jpg'', ''b.jpg'', ''c.jpg''] ''one.pdf'' sample_world))) = True \<and>
   (\<exists>pages.
      document_pages
        (snd (convert_jpegs_to_pdf sample_codec [''a.jpg'', ''b.jpg'', ''c.jpg''] ''one.pdf'' sample_world))
        ''one.pdf'' = Some pages \<and>
      document_pages
        (snd (convert_jpegs_to_pdf sample_codec [''a.jpg'', ''b.jpg'', ''c.jpg''] ''two.pdf''
           (snd (convert_jpegs_to_pdf sample_codec [''a.jpg'', ''b.jpg'', ''c.jpg''] ''one.pdf'' sample_world))))
        ''two.pdf'' = Some pages)"
proof -
  let ?files = "[''a.jpg'', ''b.jpg'', ''c.jpg'']"
  let ?run1 = "convert_jpegs_to_pdf sample_codec ?files ''one.pdf'' sample_world"
  let ?run2 = "convert_jpegs_to_pdf sample_codec ?files ''two.pdf'' (snd ?run1)"
  have t1: "fst ?run1 = True" by code_simp
  then have h1: "?run1 = (True, snd ?run1)" by (simp add: prod_eq_iff)
  have t2: "fst ?run2 = True" by code_simp
  then have h2: "?run2 = (True, snd ?run2)" by (simp add: prod_eq_iff)
  have "fs (snd ?run1) ''a.jpg'' = fs sample_world ''a.jpg''"
    "fs (snd ?run1) ''b.jpg'' = fs sample_world ''b.jpg''"
    "fs (snd ?run1) ''c.jpg'' = fs sample_world ''c.jpg''"
    by code_simp+
  then have same: "\<forall>file_path \<in> set ?files. fs sample_world file_path = fs (snd ?run1) file_path"
    by simp
  show ?thesis using conversion_deterministic [OF same h1 h2] t1 t2 by simp
qed

lemma process_files_raised:
  "fst (process_files c n i ps acc w) = Inl e \<Longrightarrow>
   \<exists>img \<in> set (opened_images w ps). page_of c img = Inl e"
proof (induction ps arbitrary: i acc w)
  case Nil
  then show ?case by simp
next
  case (Cons p ps)
  show ?case
  proof (cases "image_open w p")
    case (Inl e')
    have "opened_images (print (FailedToOpen (str e')) (print (Processing i n p) w)) ps = opened_images w ps"
      by (rule opened_images_fs) simp
    then show ?thesis
      using Inl Cons.prems Cons.IH [of "i + 1" acc "print (FailedToOpen (str e')) (print (Processing i n p) w)"]
      by (simp add: opened_images_Cons)
  next
    case (Inr img)
    let ?w1 = "print (OpenedSuccessfully (fst (img_size img)) (snd (img_size img)) (mode img))
                 (print (Processing i n p) w)"
    obtain r w2 where po: "process_opened c img p ?w1 = (r, w2)"
      by (cases "process_opened c img p ?w1")
    have r: "r = page_of c img" using process_opened_fst [of c img p ?w1] po by simp
    have w2: "fs w2 = fs w" using process_opened_fs [of c img p ?w1] po by simp
    show ?thesis
    proof (cases r)
      case (Inl e')
      then show ?thesis using Inr po r Cons.prems by (auto simp: opened_images_Cons)
    next
      case (Inr page)
      have o: "opened_images (print SuccessfullyProcessed w2) ps = opened_images w ps"
        by (rule opened_images_fs) (simp add: w2)
      have "fst (process_files c n (i + 1) ps (acc @ [page]) (print SuccessfullyProcessed w2)) = Inl e"
        using \<open>image_open w p = Inr img\<close> po Inr Cons.prems by simp
      then show ?thesis
        using Cons.IH [of "i + 1" "acc @ [page]" "print SuccessfullyProcessed w2"] o
          \<open>image_open w p = Inr img\<close>
        by (auto simp: opened_images_Cons)
    qed
  qed
qed

lemma opened_images_member:
  "file_path \<in> set ps \<Longrightarrow> image_open w file_path = Inr img \<Longrightarrow> img \<in> set (opened_images w ps)"
  by (induction ps) (auto simp: opened_images_Cons split: sum.splits)

text \<open>
  C10: when some input opens and its orientation correction or its conversion to RGB
  raises, the exception is not handled inside the loop: \<^verbatim>\<open>convert_jpegs_to_pdf\<close> returns
  \<^verbatim>\<open>False\<close>, writes no document (the pages processed before are lost) and shows the
  error dialog of the outer handler, for the exception of an input whose processing
  raised.
\<close>

theorem processing_failure_fails_run:
  assumes "output_path \<noteq> []" and "file_path \<in> set jpeg_files"
    and "image_open w file_path = Inr img"
    and "oriented img = Inl e \<or>
         (\<exists>img1. oriented img = Inr img1 \<and> mode img1 \<noteq> ''RGB'' \<and> convert c ''RGB'' img1 = Inl e)"
  shows "fst (convert_jpegs_to_pdf c jpeg_files output_path w) = False \<and>
         fs (snd (convert_jpegs_to_pdf c jpeg_files output_path w)) = fs w \<and>
         (\<exists>e' img'. img' \<in> set (opened_images w jpeg_files) \<and> page_of c img' = Inl e' \<and>
            dialogs (snd (convert_jpegs_to_pdf c jpeg_files output_path w)) =
              dialogs w @ [ShowError ''Conversion Error'' (''Failed to create PDF: '' @ str e')])"
proof -
  have ne: "jpeg_files \<noteq> []" using assms(2) by auto
  let ?w0 = "print (ProcessingImages (length jpeg_files)) w"
  obtain r w1 where pf: "process_files c (length jpeg_files) 1 jpeg_files [] ?w0 = (r, w1)"
    by (cases "process_files c (length jpeg_files) 1 jpeg_files [] ?w0")
  have w1: "fs w1 = fs w" "dialogs w1 = dialogs w"
    using process_files_fs [of c "length jpeg_files" 1 jpeg_files "[]" ?w0]
      process_files_dialogs [of c "length jpeg_files" 1 jpeg_files "[]" ?w0] pf by simp_all
  have o: "opened_images ?w0 jpeg_files = opened_images w jpeg_files"
    by (rule opened_images_fs) simp
  have "page_of c img = Inl e"
    using assms(4) by (auto simp: page_of_oriented)
  then obtain e' where "fst (process_files c (length jpeg_files) 1 jpeg_files [] ?w0) = Inl e'"
    using process_files_raises [of img ?w0 jpeg_files c e "length jpeg_files" 1 "[]"]
      opened_images_member [OF assms(2,3)] o by auto
  then have r: "r = Inl e'" and "\<exists>img' \<in> set (opened_images w jpeg_files). page_of c img' = Inl e'"
    using pf process_files_raised [of c "length jpeg_files" 1 jpeg_files "[]" ?w0 e'] o by simp_all
  then show ?thesis
    using convert_unfold [OF ne assms(1) pf] w1 by auto
qed

theorem processing_failure_fails_run_witness:
  "image_open sample_world ''d.jpg'' = Inr truncated_photo \<and>
   oriented truncated_photo = Inr truncated_photo \<and>
   convert sample_codec ''RGB'' truncated_photo = Inl (Exc OSError ''image file is truncated'') \<and>
   fst (convert_jpegs_to_pdf sample_codec [''a.jpg'', ''d.jpg'', ''c.jpg''] ''out.pdf'' sample_world) = False \<and>
   fs (snd (convert_jpegs_to_pdf sample_codec [''a.jpg'', ''d.jpg'', ''c.jpg''] ''out.pdf'' sample_world)) =
     fs sample_world"
proof -
  have a: "''out.pdf'' \<noteq> []" "''d.jpg'' \<in> set [''a.jpg'', ''d.jpg'', ''c.jpg'']"
    by simp_all
  have o: "image_open sample_world ''d.jpg'' = Inr truncated_photo"
    by code_simp
  have r: "oriented truncated_photo = Inr truncated_photo" by code_simp
  have m: "mode truncated_photo \<noteq> ''RGB''" by code_simp
  have c: "convert sample_codec ''RGB'' truncated_photo = Inl (Exc OSError ''image file is truncated'')"
    by code_simp
  have h: "oriented truncated_photo = Inl (Exc OSError ''image file is truncated'') \<or>
      (\<exists>img1. oriented truncated_photo = Inr img1 \<and> mode img1 \<noteq> ''RGB'' \<and>
         convert sample_codec ''RGB'' img1 = Inl (Exc OSError ''image file is truncated''))"
    using r m c by simp
  show ?thesis using processing_failure_fails_run [OF a o h] o r c by simp
qed

text \<open>
  C8: the claim is that the page count of the success dialog is the number of pages of the
  document. With two selected files of which the second does not open, the run succeeds,
  the document has one page and the dialog of \<^verbatim>\<open>main\<close> reports two.
\<close>

theorem success_dialog_counts_selected_files:
  "fst (main sample_codec \<lparr>selected_files = [''a.jpg'', ''b.jpg''], selected_output = ''out.pdf''\<rparr>
          sample_world) = Inr () \<and>
   dialogs (snd (main sample_codec \<lparr>selected_files = [''a.jpg'', ''b.jpg''], selected_output = ''out.pdf''\<rparr>
          sample_world)) = [ShowInfo 2 ''out.pdf'' 1000] \<and>
   map_option length
     (document_pages
        (snd (main sample_codec \<lparr>selected_files = [''a.jpg'', ''b.jpg''], selected_output = ''out.pdf''\<rparr>
                sample_world)) ''out.pdf'') = Some 1"
  by code_simp

end
